theory Spec2Isabelle
  imports Main
begin

section \<open>Python strings\<close>

text \<open>
  A Python \<open>str\<close> is a sequence of code points. The model covers the code points below
  256 (Latin-1, of which ASCII is the lower half): a \<^typ>\<open>char\<close> is the code point
  \<open>of_char c\<close>, and a string is a \<^typ>\<open>string\<close>. The character classes below are those
  of CPython 3 on that range.
\<close>

definition code_point :: "char \<Rightarrow> nat" where
  "code_point c = of_char c"

text \<open>
  \<open>str.lower\<close>: the cased upper-case letters below 256 are A-Z and U+00C0-U+00DE
  without U+00D7 (the multiplication sign); each maps to the code point 32 above.
\<close>

definition has_lower :: "char \<Rightarrow> bool" where
  "has_lower c =
     (let n = code_point c
      in (65 \<le> n \<and> n \<le> 90) \<or> (192 \<le> n \<and> n \<le> 222 \<and> n \<noteq> 215))"

definition lower_char :: "char \<Rightarrow> char" where
  "lower_char c = (if has_lower c then char_of (code_point c + 32) else c)"

definition lower :: "string \<Rightarrow> string" where
  "lower s = map lower_char s"

text \<open>
  \<open>str.isspace\<close>, which \<open>str.strip()\<close> removes at both ends: U+0009-U+000D,
  U+001C-U+0020, U+0085, U+00A0.
\<close>

definition isspace :: "char \<Rightarrow> bool" where
  "isspace c =
     (let n = code_point c
      in (9 \<le> n \<and> n \<le> 13) \<or> (28 \<le> n \<and> n \<le> 32) \<or> n = 133 \<or> n = 160)"

definition strip :: "string \<Rightarrow> string" where
  "strip s = rev (dropWhile isspace (rev (dropWhile isspace s)))"

text \<open>The decimal digits (\<open>\d\<close> of \<open>re\<close>, \<open>str.isdecimal\<close>): 0-9 only below 256.\<close>

definition isdecimal :: "char \<Rightarrow> bool" where
  "isdecimal c = (let n = code_point c in 48 \<le> n \<and> n \<le> 57)"

text \<open>
  \<open>str.isalnum\<close>: decimal digits, the letters A-Z, a-z, U+00AA, U+00B5, U+00BA,
  U+00C0-U+00FF without U+00D7 and U+00F7, and the numeric characters U+00B2, U+00B3,
  U+00B9, U+00BC-U+00BE.
\<close>

definition isalnum :: "char \<Rightarrow> bool" where
  "isalnum c =
     (let n = code_point c
      in (48 \<le> n \<and> n \<le> 57) \<or> (65 \<le> n \<and> n \<le> 90) \<or> (97 \<le> n \<and> n \<le> 122)
         \<or> n = 170 \<or> n = 181 \<or> n = 186
         \<or> n = 178 \<or> n = 179 \<or> n = 185 \<or> (188 \<le> n \<and> n \<le> 190)
         \<or> (192 \<le> n \<and> n \<le> 255 \<and> n \<noteq> 215 \<and> n \<noteq> 247))"

text \<open>\<open>\w\<close> of \<open>re\<close> on a \<open>str\<close> pattern: an alphanumeric character or the underscore.\<close>

definition is_word :: "char \<Rightarrow> bool" where
  "is_word c = (isalnum c \<or> c = CHR ''_'')"

subsection \<open>The built-in \<open>int\<close> on a string\<close>

text \<open>
  \<open>int(s)\<close> in base 10: white space at both ends is skipped (U+0009-U+000D, U+0020,
  U+0085, U+00A0), then an optional sign, then decimal digits, where single underscores
  may stand between two digits. Anything else raises \<open>ValueError\<close>, here \<open>None\<close>.
  CPython from 3.11 on also raises \<open>ValueError\<close> when the string has more than
  \<open>sys.int_max_str_digits\<close> digits (4300 unless reconfigured); leading zeros count,
  underscores, the sign and white space do not.
\<close>

definition int_max_str_digits :: nat where
  "int_max_str_digits = 4300"

definition int_space :: "char \<Rightarrow> bool" where
  "int_space c =
     (let n = code_point c in (9 \<le> n \<and> n \<le> 13) \<or> n = 32 \<or> n = 133 \<or> n = 160)"

fun scan_digits :: "bool \<Rightarrow> int \<Rightarrow> string \<Rightarrow> int option" where
  "scan_digits prev_digit acc [] = (if prev_digit then Some acc else None)"
| "scan_digits prev_digit acc (c # cs) =
     (if isdecimal c then scan_digits True (10 * acc + (int (code_point c) - 48)) cs
      else if c = CHR ''_'' \<and> prev_digit then scan_digits False acc cs
      else None)"

definition int_literal :: "string \<Rightarrow> int option" where
  "int_literal body =
     (if length (filter isdecimal body) > int_max_str_digits then None
      else scan_digits False 0 body)"

definition int_of_str :: "string \<Rightarrow> int option" where
  "int_of_str s =
     (case rev (dropWhile int_space (rev (dropWhile int_space s))) of
        [] \<Rightarrow> None
      | c # cs \<Rightarrow>
          if c = CHR ''-'' then map_option uminus (int_literal cs)
          else if c = CHR ''+'' then int_literal cs
          else int_literal (c # cs))"

section \<open>Slug normalizer\<close>

text \<open>
  \<^verbatim>\<open>remove_non_word = re.compile(r"[^\w\d]|_")\<close>: the pattern matches one character,
  either one that is neither a word character nor a digit, or the underscore.
  \<open>remove_non_word.sub("", s)\<close> deletes every match.
\<close>

definition remove_non_word_match :: "char \<Rightarrow> bool" where
  "remove_non_word_match c = (\<not> (is_word c \<or> isdecimal c) \<or> c = CHR ''_'')"

definition remove_non_word_sub :: "string \<Rightarrow> string" where
  "remove_non_word_sub s = filter (\<lambda>c. \<not> remove_non_word_match c) s"

definition get_readable_slug_from :: "string \<Rightarrow> string" where
  "get_readable_slug_from show_name = remove_non_word_sub (lower show_name)"

record show_obj =
  show_id :: int
  title :: string

definition get_feed_slug :: "show_obj \<Rightarrow> string" where
  "get_feed_slug s = get_readable_slug_from (title s)"

section \<open>The external collaborators\<close>

text \<open>
  The exceptions the code raises, catches or lets through. \<open>NotFound\<close> is what Flask's
  \<open>abort(404)\<close> raises; \<open>IntegrityError\<close> and \<open>OperationalError\<close> are sqlite3's;
  \<open>RecursionError\<close> is what the interpreter raises when a call would exceed its
  recursion limit.
\<close>

datatype error = RuntimeError | ValueError | KeyError | AttributeError | NoSuchShowError
  | IntegrityError | OperationalError | NotFound | RecursionError

text \<open>
  The \<open>show\<close> argument of \<open>find_show\<close>: the path segment of the request (a string), or
  a value of the \<open>SHOW_CUSTOM_URL\<close> table in the recursive call.
\<close>

datatype token = Str string | Num int

text \<open>
  A \<open>PodcastFeedGenerator\<close>, as far as this file uses it: \<open>gen.get_show_id_by_name\<close>,
  which returns an id or raises, and the dictionary \<open>gen.show_source.shows\<close>.
\<close>

record generator =
  get_show_id_by_name :: "token \<Rightarrow> error + int"
  show_source_shows :: "int \<rightharpoonup> show_obj"

text \<open>
  What the module reads from outside itself: the settings \<open>SHOW_CUSTOM_URL\<close> (a
  dictionary, here its items in order) and \<open>BASE_URL\<close>; the generator that
  \<open>PodcastFeedGenerator(quiet=True)\<close> constructs; whether the class \<open>NoSuchShowError\<close>
  derives from \<open>ValueError\<close>; and Flask's \<open>url_for\<close> (endpoint and keyword arguments).
\<close>

record env =
  SHOW_CUSTOM_URL :: "(string \<times> token) list"
  BASE_URL :: string
  PodcastFeedGenerator :: generator
  NoSuchShowError_is_ValueError :: bool
  url_for :: "string \<Rightarrow> (string \<times> string) list \<Rightarrow> string"

record episode_obj =
  episode_show :: show_obj
  sound_url :: string

section \<open>Show resolver\<close>

definition MAX_RECURSION_DEPTH :: int where
  "MAX_RECURSION_DEPTH = 20"

text \<open>\<open>int(show)\<close>: the parse of a string, the value itself of an integer.\<close>

definition py_int :: "token \<Rightarrow> int option" where
  "py_int tok = (case tok of Str s \<Rightarrow> int_of_str s | Num n \<Rightarrow> Some n)"

text \<open>\<open>if not show_id\<close>: both \<open>None\<close> and the integer 0 are false.\<close>

definition truthy :: "int option \<Rightarrow> int option" where
  "truthy sid = (case sid of None \<Rightarrow> None | Some n \<Rightarrow> if n = 0 then None else Some n)"

text \<open>\<open>gen.show_source.shows[show_id]\<close>: a missing key raises \<open>KeyError\<close>.\<close>

definition shows_getitem :: "generator \<Rightarrow> int \<Rightarrow> error + show_obj" where
  "shows_getitem gen sid =
     (case show_source_shows gen sid of None \<Rightarrow> Inl KeyError | Some s \<Rightarrow> Inr s)"

text \<open>\<open>show.strip().lower()\<close>: an integer has no \<open>strip\<close>.\<close>

definition strip_lower :: "token \<Rightarrow> error + string" where
  "strip_lower tok = (case tok of Str s \<Rightarrow> Inr (lower (strip s)) | Num n \<Rightarrow> Inl AttributeError)"

text \<open>
  The \<open>for\<close> loop over \<open>settings.SHOW_CUSTOM_URL.items()\<close>: the value of the first item
  whose lower-cased key equals \<open>show\<close>; \<open>None\<close> when the loop reaches its \<open>else\<close>.
\<close>

fun custom_url_items :: "(string \<times> token) list \<Rightarrow> string \<Rightarrow> token option" where
  "custom_url_items [] show = None"
| "custom_url_items ((potential_show, sid) # items) show =
     (if lower potential_show = show then Some sid else custom_url_items items show)"

text \<open>
  \<open>find_show\<close>. The result is \<open>None\<close> when the recursion never returns, \<open>Some (Inl e)\<close>
  when it raises \<open>e\<close>, \<open>Some (Inr s)\<close> when it returns the show \<open>s\<close>.
\<close>

partial_function (option) find_show ::
  "env \<Rightarrow> generator \<Rightarrow> token \<Rightarrow> bool \<Rightarrow> int \<Rightarrow> (error + show_obj) option" where
  "find_show env gen show strict recursion_depth =
     (if recursion_depth \<ge> MAX_RECURSION_DEPTH then Some (Inl RuntimeError)
      else
        let sid = (if \<not> strict then py_int show else None) in
        case truthy sid of
          Some n \<Rightarrow> Some (shows_getitem gen n)
        | None \<Rightarrow>
            (case get_show_id_by_name gen show of
               Inr n \<Rightarrow> Some (shows_getitem gen n)
             | Inl e \<Rightarrow>
                 if e = KeyError \<or> e = NoSuchShowError then
                   (case strip_lower show of
                      Inl e' \<Rightarrow> Some (Inl e')
                    | Inr show' \<Rightarrow>
                        (case custom_url_items (SHOW_CUSTOM_URL env) show' of
                           Some sid' \<Rightarrow>
                             find_show env (PodcastFeedGenerator env) sid' False
                               (recursion_depth + 1)
                         | None \<Rightarrow> Some (Inl NoSuchShowError)))
                 else Some (Inl e)))"

declare find_show.simps [code]

section \<open>Redirect store\<close>

text \<open>
  The database file: the tables \<open>sound\<close> and \<open>article\<close>, each absent (\<open>None\<close>) or a
  list of rows \<open>(original, proxy)\<close> in insertion order.
\<close>

type_synonym table = "(string \<times> string) list"

record redirect_db =
  sound :: "table option"
  article :: "table option"

text \<open>
  \<open>CREATE TABLE IF NOT EXISTS t (original text primary key, proxy text unique)\<close>:
  an existing table is left as it is.
\<close>

definition create_table_if_not_exists :: "table option \<Rightarrow> table option" where
  "create_table_if_not_exists t = (case t of None \<Rightarrow> Some [] | Some rows \<Rightarrow> Some rows)"

definition init_db :: "redirect_db \<Rightarrow> redirect_db" where
  "init_db db =
     \<lparr>sound = create_table_if_not_exists (sound db),
      article = create_table_if_not_exists (article db)\<rparr>"

text \<open>\<open>SELECT proxy FROM t WHERE original=?\<close> and \<open>fetchone()\<close>.\<close>

definition select_proxy :: "table option \<Rightarrow> string \<Rightarrow> error + string option" where
  "select_proxy t original_url =
     (case t of
        None \<Rightarrow> Inl OperationalError
      | Some rows \<Rightarrow> Inr (map_option snd (find (\<lambda>r. fst r = original_url) rows)))"

text \<open>\<open>SELECT original FROM t WHERE proxy=?\<close> and \<open>fetchone()\<close>.\<close>

definition select_original :: "table option \<Rightarrow> string \<Rightarrow> error + string option" where
  "select_original t proxy =
     (case t of
        None \<Rightarrow> Inl OperationalError
      | Some rows \<Rightarrow> Inr (map_option fst (find (\<lambda>r. snd r = proxy) rows)))"

text \<open>
  \<open>INSERT INTO t (original, proxy) VALUES (?, ?)\<close>: the primary key on \<open>original\<close>
  and the unique constraint on \<open>proxy\<close> refuse a duplicate with \<open>IntegrityError\<close>.
\<close>

definition insert_row :: "table option \<Rightarrow> string \<times> string \<Rightarrow> error + table" where
  "insert_row t row =
     (case t of
        None \<Rightarrow> Inl OperationalError
      | Some rows \<Rightarrow>
          if fst row \<in> set (map fst rows) \<or> snd row \<in> set (map snd rows)
          then Inl IntegrityError
          else Inr (rows @ [row]))"

definition get_original_sound :: "redirect_db \<Rightarrow> show_obj \<Rightarrow> string \<Rightarrow> error + string" where
  "get_original_sound db show episode =
     (case select_original (sound db) episode of
        Inl e \<Rightarrow> Inl e
      | Inr None \<Rightarrow> Inl NotFound
      | Inr (Some original) \<Rightarrow> Inr original)"

definition get_original_article :: "redirect_db \<Rightarrow> show_obj \<Rightarrow> string \<Rightarrow> error + string" where
  "get_original_article db show article_code =
     (case select_original (article db) article_code of
        Inl e \<Rightarrow> Inl e
      | Inr None \<Rightarrow> Inl NotFound
      | Inr (Some original) \<Rightarrow> Inr original)"

text \<open>
  \<open>settings.BASE_URL + url_for("redirect_episode", show=get_feed_slug(show), episode=code)\<close>
  and its article twin.
\<close>

definition episode_url :: "env \<Rightarrow> show_obj \<Rightarrow> string \<Rightarrow> string" where
  "episode_url env show code =
     BASE_URL env @ url_for env ''redirect_episode''
       [(''show'', get_feed_slug show), (''episode'', code)]"

definition article_url :: "env \<Rightarrow> show_obj \<Rightarrow> string \<Rightarrow> string" where
  "article_url env show code =
     BASE_URL env @ url_for env ''redirect_article''
       [(''show'', get_feed_slug show), (''article'', code)]"

text \<open>
  \<open>get_redirect_sound\<close>; \<open>new_uri\<close> is what \<open>shortuuid.uuid()\<close> gives when it is called.
  The result is the database after the call and what the call returns or raises. A failed
  \<open>INSERT\<close> leaves the database as it was, and its \<open>IntegrityError\<close> leaves the function.
\<close>

definition get_redirect_sound ::
  "env \<Rightarrow> string \<Rightarrow> redirect_db \<Rightarrow> string \<Rightarrow> episode_obj \<Rightarrow> redirect_db \<times> (error + string)" where
  "get_redirect_sound env new_uri db original_url episode =
     (let show = episode_show episode in
      case select_proxy (sound db) original_url of
        Inl e \<Rightarrow> (db, Inl e)
      | Inr (Some proxy) \<Rightarrow> (db, Inr (episode_url env show proxy))
      | Inr None \<Rightarrow>
          (case insert_row (sound db) (original_url, new_uri) of
             Inl e \<Rightarrow> (db, Inl e)
           | Inr rows \<Rightarrow> (db\<lparr>sound := Some rows\<rparr>, Inr (episode_url env show new_uri))))"

text \<open>
  \<open>get_redirect_article\<close>; \<open>uuid k\<close> is what the \<open>k\<close>-th call of \<open>shortuuid.uuid()\<close> gives,
  and the result also holds the number of calls made so far. On \<open>IntegrityError\<close> the
  function calls itself again, one activation deeper on the interpreter's stack.
  \<open>stack\<close> is the number of nested activations of the function that the recursion limit
  still allows: with none left the call raises \<open>RecursionError\<close>, which is not an
  \<open>IntegrityError\<close> and leaves every activation; the \<open>with\<close> block has committed nothing.
\<close>

fun get_redirect_article ::
  "env \<Rightarrow> (nat \<Rightarrow> string) \<Rightarrow> nat \<Rightarrow> nat \<Rightarrow> redirect_db \<Rightarrow> string \<Rightarrow> episode_obj
     \<Rightarrow> redirect_db \<times> nat \<times> (error + string)" where
  "get_redirect_article env uuid k 0 db original_url episode = (db, k, Inl RecursionError)"
| "get_redirect_article env uuid k (Suc stack) db original_url episode =
     (case select_proxy (article db) original_url of
        Inl e \<Rightarrow> (db, k, Inl e)
      | Inr (Some proxy) \<Rightarrow> (db, k, Inr (article_url env (episode_show episode) proxy))
      | Inr None \<Rightarrow>
          (case insert_row (article db) (original_url, uuid k) of
             Inl e \<Rightarrow>
               if e = IntegrityError
               then get_redirect_article env uuid (Suc k) stack db original_url episode
               else (db, Suc k, Inl e)
           | Inr rows \<Rightarrow>
               (db\<lparr>article := Some rows\<rparr>, Suc k,
                Inr (article_url env (episode_show episode) (uuid k)))))"


text \<open>
  The states of the database that the module can produce: \<open>init_db\<close> on a new file,
  then calls of \<open>init_db\<close>, \<open>get_redirect_sound\<close> and \<open>get_redirect_article\<close> with any
  arguments, any generated codes and any room on the stack.
\<close>

inductive reachable :: "redirect_db \<Rightarrow> bool" where
  new_file: "reachable (init_db \<lparr>sound = None, article = None\<rparr>)"
| init_again: "reachable db \<Longrightarrow> reachable (init_db db)"
| sound_call:
    "reachable db \<Longrightarrow> get_redirect_sound env new_uri db original_url episode = (db', r)
     \<Longrightarrow> reachable db'"
| article_call:
    "reachable db \<Longrightarrow> get_redirect_article env uuid k stack db original_url episode = (db', k', r)
     \<Longrightarrow> reachable db'"

text \<open>The storage constraints of one table: the primary key and the unique column.\<close>

definition constraints_hold :: "table option \<Rightarrow> bool" where
  "constraints_hold t =
     (case t of None \<Rightarrow> False | Some rows \<Rightarrow> distinct (map fst rows) \<and> distinct (map snd rows))"

text \<open>
  The \<open>INSERT\<close> of a call for \<open>original_url\<close> with the generated \<open>code\<close> is not
  needed or cannot collide: the table exists and either has a row for \<open>original_url\<close>
  already, or has no row with that code.
\<close>

definition code_usable :: "table option \<Rightarrow> string \<Rightarrow> string \<Rightarrow> bool" where
  "code_usable t original_url code =
     (case t of
        None \<Rightarrow> False
      | Some rows \<Rightarrow> original_url \<in> set (map fst rows) \<or> code \<notin> set (map snd rows))"

subsection \<open>Calls that overlap in time\<close>

text \<open>
  \<open>get_redirect_sound\<close> runs two SQL statements, the \<open>SELECT\<close> and, on a miss, the
  \<open>INSERT\<close>; each is atomic, and statements of other calls may run between them. A
  call is at its \<open>SELECT\<close>, at its \<open>INSERT\<close>, or has returned or raised.
\<close>

datatype call_state = At_select | At_insert | Finished "error + string"

definition sound_statement ::
  "env \<Rightarrow> string \<Rightarrow> string \<Rightarrow> episode_obj \<Rightarrow> redirect_db \<times> call_state
     \<Rightarrow> redirect_db \<times> call_state" where
  "sound_statement env new_uri original_url episode st =
     (let db = fst st; show = episode_show episode in
      case snd st of
        At_select \<Rightarrow>
          (case select_proxy (sound db) original_url of
             Inl e \<Rightarrow> (db, Finished (Inl e))
           | Inr (Some proxy) \<Rightarrow> (db, Finished (Inr (episode_url env show proxy)))
           | Inr None \<Rightarrow> (db, At_insert))
      | At_insert \<Rightarrow>
          (case insert_row (sound db) (original_url, new_uri) of
             Inl e \<Rightarrow> (db, Finished (Inl e))
           | Inr rows \<Rightarrow>
               (db\<lparr>sound := Some rows\<rparr>, Finished (Inr (episode_url env show new_uri))))
      | Finished r \<Rightarrow> (db, Finished r))"

text \<open>
  Several calls of \<open>get_redirect_sound\<close> for the same \<open>original_url\<close>, each with the code
  its own \<open>shortuuid.uuid()\<close> gives; the schedule names the call that runs its next
  statement.
\<close>

fun run_sound_calls ::
  "env \<Rightarrow> string \<Rightarrow> episode_obj \<Rightarrow> nat list \<Rightarrow> redirect_db \<times> (string \<times> call_state) list
     \<Rightarrow> redirect_db \<times> (string \<times> call_state) list" where
  "run_sound_calls env original_url episode [] st = st"
| "run_sound_calls env original_url episode (i # schedule) st =
     (let db = fst st; calls = snd st in
      if i < length calls then
        (let st' = sound_statement env (fst (calls ! i)) original_url episode
                     (db, snd (calls ! i))
         in run_sound_calls env original_url episode schedule
              (fst st', calls[i := (fst (calls ! i), snd st')]))
      else run_sound_calls env original_url episode schedule st)"

section \<open>HTTP surface\<close>

text \<open>\<open>except ValueError\<close> catches \<open>ValueError\<close> and the classes that derive from it.\<close>

definition is_ValueError :: "env \<Rightarrow> error \<Rightarrow> bool" where
  "is_ValueError env e =
     (e = ValueError \<or> (e = NoSuchShowError \<and> NoSuchShowError_is_ValueError env))"

text \<open>\<open>redirect(location, code)\<close>: a response with that status; the default is 302.\<close>

datatype response = Redirect string nat

definition redirect :: "string \<Rightarrow> nat \<Rightarrow> response" where
  "redirect location code = Redirect location code"

text \<open>
  The routes \<open>/episode/<show>/<episode>\<close> and \<open>/artikkel/<show>/<article>\<close>. The show
  is resolved first; \<open>abort(404)\<close> raises \<open>NotFound\<close>.
\<close>

definition redirect_episode ::
  "env \<Rightarrow> redirect_db \<Rightarrow> string \<Rightarrow> string \<Rightarrow> (error + response) option" where
  "redirect_episode env db show episode =
     (case find_show env (PodcastFeedGenerator env) (Str show) True 0 of
        None \<Rightarrow> None
      | Some found \<Rightarrow>
          Some (case (case found of
                        Inl e \<Rightarrow> Inl e
                      | Inr s \<Rightarrow>
                          (case get_original_sound db s episode of
                             Inl e \<Rightarrow> Inl e
                           | Inr original \<Rightarrow> Inr (redirect original 302))) of
                  Inl e \<Rightarrow> if is_ValueError env e then Inl NotFound else Inl e
                | Inr resp \<Rightarrow> Inr resp))"

definition redirect_article ::
  "env \<Rightarrow> redirect_db \<Rightarrow> string \<Rightarrow> string \<Rightarrow> (error + response) option" where
  "redirect_article env db show article_code =
     (case find_show env (PodcastFeedGenerator env) (Str show) True 0 of
        None \<Rightarrow> None
      | Some found \<Rightarrow>
          Some (case (case found of
                        Inl e \<Rightarrow> Inl e
                      | Inr s \<Rightarrow>
                          (case get_original_article db s article_code of
                             Inl e \<Rightarrow> Inl e
                           | Inr original \<Rightarrow> Inr (redirect original 302))) of
                  Inl e \<Rightarrow> if is_ValueError env e then Inl NotFound else Inl e
                | Inr resp \<Rightarrow> Inr resp))"

text \<open>
  The request, as far as the module reads it: \<open>request.base_url\<close> and \<open>request.url\<close>,
  which is the base URL followed by the query string when there is one.
\<close>

record request =
  request_base_url :: string
  request_url :: string

text \<open>The \<open>before_request\<close> hook \<open>ignore_get\<close>; \<open>None\<close> when it returns nothing.\<close>

definition ignore_get :: "request \<Rightarrow> response option" where
  "ignore_get req =
     (if request_base_url req \<noteq> request_url req
      then Some (redirect (request_base_url req) 301)
      else None)"

text \<open>The view function and the arguments that the URL map gives for the request path.\<close>

datatype view = Redirect_episode string string | Redirect_article string string

text \<open>
  How Flask serves a request that matches one of the two redirect routes. On the first
  request of the process the \<open>before_first_request\<close> hook \<open>init_db\<close> runs. Then the
  \<open>before_request\<close> hook runs, and its response, if it returns one, is the answer; the
  view function is called only when the hook returns nothing. The result is the database
  after the request and what the request gives.
\<close>

definition full_dispatch_request ::
  "env \<Rightarrow> bool \<Rightarrow> redirect_db \<Rightarrow> request \<Rightarrow> view
     \<Rightarrow> redirect_db \<times> (error + response) option" where
  "full_dispatch_request env first_request db req v =
     (let db' = (if first_request then init_db db else db) in
      (db',
       case ignore_get req of
         Some resp \<Rightarrow> Some (Inr resp)
       | None \<Rightarrow>
           (case v of
              Redirect_episode show episode \<Rightarrow> redirect_episode env db' show episode
            | Redirect_article show article_code \<Rightarrow>
                redirect_article env db' show article_code)))"


section \<open>Example configurations\<close>

text \<open>
  The catalog \<open>{1: "Daily News"}\<close> with the alias \<open>dailynews-old\<close>, and the same catalog
  with a show of id 0 added. Names are looked up in lower case; a name that is not there
  raises \<open>NoSuchShowError\<close>, and an integer has no \<open>lower\<close>.
\<close>

definition daily_news :: show_obj where
  "daily_news = \<lparr>show_id = 1, title = ''Daily News''\<rparr>"

definition show_zero :: show_obj where
  "show_zero = \<lparr>show_id = 0, title = ''Zero Hour''\<rparr>"

definition name_index :: "(string \<times> int) list \<Rightarrow> token \<Rightarrow> error + int" where
  "name_index names tok =
     (case tok of
        Num n \<Rightarrow> Inl AttributeError
      | Str s \<Rightarrow> (case map_of names (lower s) of None \<Rightarrow> Inl NoSuchShowError | Some n \<Rightarrow> Inr n))"

definition news_gen :: generator where
  "news_gen =
     \<lparr>get_show_id_by_name = name_index [(''daily news'', 1)],
      show_source_shows = [1 \<mapsto> daily_news]\<rparr>"

definition zero_gen :: generator where
  "zero_gen =
     \<lparr>get_show_id_by_name = name_index [(''daily news'', 1), (''zero hour'', 0)],
      show_source_shows = [1 \<mapsto> daily_news, 0 \<mapsto> show_zero]\<rparr>"

text \<open>
  \<open>url_for\<close> for the two redirect routes, without percent-encoding: the path pattern with
  its parameters filled in.
\<close>

definition url_arg :: "(string \<times> string) list \<Rightarrow> string \<Rightarrow> string" where
  "url_arg vals name = (case map_of vals name of None \<Rightarrow> [] | Some v \<Rightarrow> v)"

definition plain_url_for :: "string \<Rightarrow> (string \<times> string) list \<Rightarrow> string" where
  "plain_url_for endpoint vals =
     (if endpoint = ''redirect_episode''
      then ''/episode/'' @ url_arg vals ''show'' @ ''/'' @ url_arg vals ''episode''
      else ''/artikkel/'' @ url_arg vals ''show'' @ ''/'' @ url_arg vals ''article'')"

definition news_env :: env where
  "news_env =
     \<lparr>SHOW_CUSTOM_URL = [(''dailynews-old'', Num 1)],
      BASE_URL = ''http://pod.example'',
      PodcastFeedGenerator = news_gen,
      NoSuchShowError_is_ValueError = True,
      url_for = plain_url_for\<rparr>"

definition zero_env :: env where
  "zero_env = news_env\<lparr>PodcastFeedGenerator := zero_gen\<rparr>"


text \<open>An alias that names an id the catalog does not hold.\<close>

definition stale_alias_env :: env where
  "stale_alias_env = news_env\<lparr>SHOW_CUSTOM_URL := [(''old'', Num 999)]\<rparr>"

text \<open>A request without a query string and one with a query string.\<close>

definition plain_request :: request where
  "plain_request =
     \<lparr>request_base_url = ''http://pod.example/episode/nosuchshow/abc'',
      request_url = ''http://pod.example/episode/nosuchshow/abc''\<rparr>"


text \<open>An alias table whose entry leads back to itself.\<close>

definition cyclic_env :: env where
  "cyclic_env = news_env\<lparr>SHOW_CUSTOM_URL := [(''a'', Str ''A'')]\<rparr>"

definition news_episode :: episode_obj where
  "news_episode = \<lparr>episode_show = daily_news, sound_url = ''http://x/1.mp3''\<rparr>"

text \<open>A database with one sound row and one article row, both with the code \<open>abc\<close>.\<close>

definition one_row_db :: redirect_db where
  "one_row_db =
     \<lparr>sound = Some [(''http://x/2.mp3'', ''abc'')],
      article = Some [(''http://x/2.html'', ''abc'')]\<rparr>"

definition empty_db :: redirect_db where
  "empty_db = init_db \<lparr>sound = None, article = None\<rparr>"

text \<open>Databases that two sound calls and then two article calls leave behind.\<close>

definition one_sound_row :: redirect_db where
  "one_sound_row = \<lparr>sound = Some [(''http://x/1.mp3'', ''c1'')], article = Some []\<rparr>"

definition two_sound_rows :: redirect_db where
  "two_sound_rows =
     \<lparr>sound = Some [(''http://x/1.mp3'', ''c1''), (''http://x/3.mp3'', ''c3'')], article = Some []\<rparr>"

definition two_rows_db :: redirect_db where
  "two_rows_db =
     \<lparr>sound = Some [(''http://x/1.mp3'', ''c1''), (''http://x/3.mp3'', ''c3'')],
      article = Some [(''http://x/1.html'', ''abc''), (''http://x/3.html'', ''xyz'')]\<rparr>"

text \<open>A code generator whose first code is \<open>abc\<close> and whose later codes are \<open>xyz\<close>.\<close>

definition abc_then_xyz :: "nat \<Rightarrow> string" where
  "abc_then_xyz k = (if k = 0 then ''abc'' else ''xyz'')"

section \<open>Properties of the slug normalizer\<close>

lemma code_point_char_of: "n < 256 \<Longrightarrow> code_point (char_of n) = n"
  by (simp add: code_point_def)

lemma lower_char_idem: "lower_char (lower_char c) = lower_char c"
proof (cases "has_lower c")
  case False
  then show ?thesis by (simp add: lower_char_def)
next
  case True
  then have b: "code_point c + 32 < 256"
    by (auto simp: has_lower_def Let_def)
  from True have "\<not> has_lower (char_of (code_point c + 32))"
    by (auto simp: has_lower_def Let_def code_point_char_of [OF b])
  then show ?thesis by (simp add: lower_char_def)
qed

lemma lower_idem: "lower (lower s) = lower s"
  by (simp add: lower_def lower_char_idem)

lemma lower_filter: "lower (filter P (lower s)) = filter P (lower s)"
  by (induction s) (simp_all add: lower_def lower_char_idem)

lemma keep_alnum: "(\<not> remove_non_word_match c) = isalnum c"
  by (auto simp: remove_non_word_match_def is_word_def isalnum_def isdecimal_def Let_def
      code_point_def)

lemma slug_slug: "get_readable_slug_from (get_readable_slug_from s) = get_readable_slug_from s"
  by (simp add: get_readable_slug_from_def remove_non_word_sub_def lower_filter)

lemma slug_fixed_point:
  "list_all (\<lambda>c. isalnum c \<and> lower_char c = c) s \<Longrightarrow> get_readable_slug_from s = s"
  by (induction s)
     (simp_all add: get_readable_slug_from_def remove_non_word_sub_def lower_def keep_alnum)

lemma slug_my_show: "get_readable_slug_from ''My Show!'' = ''myshow''"
  by code_simp

lemma slug_MY_SHOW: "get_readable_slug_from ''MY SHOW'' = ''myshow''"
  by code_simp

text \<open>
  C8. The slug function is idempotent: \<open>slug (slug s) = slug s\<close> for every string \<open>s\<close>;
  a string whose characters are all alphanumeric and unchanged by lower-casing (letters
  and digits in lower case) is a fixed point; and the slugs of \<open>My Show!\<close> and of
  \<open>MY SHOW\<close> are both \<open>myshow\<close>.
\<close>

theorem slug_idempotent:
  "get_readable_slug_from (get_readable_slug_from s) = get_readable_slug_from s
   \<and> (list_all (\<lambda>c. isalnum c \<and> lower_char c = c) s \<longrightarrow> get_readable_slug_from s = s)
   \<and> get_readable_slug_from ''My Show!'' = ''myshow''
   \<and> get_readable_slug_from ''MY SHOW'' = ''myshow''"
  using slug_slug slug_fixed_point slug_my_show slug_MY_SHOW by blast

theorem slug_idempotent_witness:
  "list_all (\<lambda>c. isalnum c \<and> lower_char c = c) ''show9''
   \<and> get_readable_slug_from ''show9'' = ''show9''
   \<and> get_readable_slug_from (get_readable_slug_from ''My Show!'')
       = get_readable_slug_from ''My Show!''"
proof -
  have h: "list_all (\<lambda>c. isalnum c \<and> lower_char c = c) ''show9''"
    by code_simp
  with slug_idempotent [of "''show9''"] slug_idempotent [of "''My Show!''"]
  show ?thesis by blast
qed

section \<open>Properties of the show resolver\<close>

lemma find_show_limit:
  "MAX_RECURSION_DEPTH \<le> d \<Longrightarrow> find_show env gen tok strict d = Some (Inl RuntimeError)"
  by (subst find_show.simps) simp

lemma find_show_returns: "\<exists>r. find_show env gen tok strict d = Some r"
proof (induction "nat (MAX_RECURSION_DEPTH - d)" arbitrary: gen tok strict d)
  case 0
  then have "MAX_RECURSION_DEPTH \<le> d" by simp
  then show ?case by (simp add: find_show_limit)
next
  case (Suc k)
  then have lt: "\<not> MAX_RECURSION_DEPTH \<le> d" and k: "k = nat (MAX_RECURSION_DEPTH - (d + 1))"
    by linarith+
  note ih = Suc.hyps(1) [OF k]
  show ?case
    by (subst find_show.simps)
       (use lt ih in \<open>auto simp: Let_def split: option.splits sum.splits\<close>)
qed

lemma nonstrict_nonzero_id:
  "py_int tok = Some n \<Longrightarrow> n \<noteq> 0 \<Longrightarrow> d < MAX_RECURSION_DEPTH \<Longrightarrow>
   find_show env gen tok False d = Some (shows_getitem gen n)"
  by (subst find_show.simps) (simp add: truthy_def)

lemma nonstrict_zero_is_strict:
  "py_int tok = Some 0 \<Longrightarrow> find_show env gen tok False d = find_show env gen tok True d"
  by (subst find_show.simps, subst (2) find_show.simps) (simp add: truthy_def)

text \<open>
  An alias that leads back to its own key, for a name the catalog does not have: every
  call ends in \<open>RuntimeError\<close>, from any depth.
\<close>

lemma find_show_alias_loop:
  assumes loop: "custom_url_items (SHOW_CUSTOM_URL env) (lower (strip s)) = Some (Str s)"
    and unnamed: "get_show_id_by_name (PodcastFeedGenerator env) (Str s) = Inl NoSuchShowError"
    and nan: "int_of_str s = None"
  shows "find_show env (PodcastFeedGenerator env) (Str s) False d = Some (Inl RuntimeError)"
proof (induction "nat (MAX_RECURSION_DEPTH - d)" arbitrary: d)
  case 0
  then have "MAX_RECURSION_DEPTH \<le> d" by simp
  then show ?case by (rule find_show_limit)
next
  case (Suc k)
  then have lt: "\<not> MAX_RECURSION_DEPTH \<le> d" and k: "k = nat (MAX_RECURSION_DEPTH - (d + 1))"
    by linarith+
  have "find_show env (PodcastFeedGenerator env) (Str s) False d
          = find_show env (PodcastFeedGenerator env) (Str s) False (d + 1)"
    using lt loop unnamed nan
    by (subst find_show.simps) (simp add: py_int_def truthy_def strip_lower_def)
  with Suc.hyps(1) [OF k] show ?case by simp
qed

lemma find_show_cycle:
  "find_show cyclic_env news_gen (Str ''a'') True 0 = Some (Inl RuntimeError)"
  by code_simp

lemma py_int_zero: "py_int (Str ''0'') = Some 0"
  by code_simp

lemma zero_in_catalog: "show_source_shows zero_gen 0 = Some show_zero"
  by (simp add: zero_gen_def)

lemma zero_token_not_found:
  "find_show zero_env zero_gen (Str ''0'') True 0 = Some (Inl NoSuchShowError)"
  by code_simp

text \<open>
  C4. For every alias table, also one whose entries lead back to themselves, and every
  generator, token, mode and depth, \<open>find_show\<close> returns or raises: it never runs
  forever. Once the depth has reached the bound of 20 it raises \<open>RuntimeError\<close>, the
  recursion limit error.
\<close>

theorem find_show_terminates:
  "(\<exists>r. find_show env gen tok strict d = Some r)
   \<and> (MAX_RECURSION_DEPTH \<le> d \<longrightarrow> find_show env gen tok strict d = Some (Inl RuntimeError))"
  using find_show_returns find_show_limit by blast

theorem find_show_terminates_witness:
  "MAX_RECURSION_DEPTH \<le> 20
   \<and> find_show cyclic_env news_gen (Str ''a'') False 20 = Some (Inl RuntimeError)
   \<and> find_show cyclic_env news_gen (Str ''a'') True 0 = Some (Inl RuntimeError)"
  using find_show_terminates [of cyclic_env news_gen "Str ''a''" False 20] find_show_cycle
  by (simp add: MAX_RECURSION_DEPTH_def)

text \<open>
  C9. In non-strict mode a token that parses to the integer 0 is never taken as a show
  id: the call gives what the strict call gives, that is, the name lookup and then the
  alias table decide, whatever the catalog holds under the id 0.
\<close>

theorem zero_id_falls_through:
  assumes "py_int tok = Some 0"
  shows "find_show env gen tok False d = find_show env gen tok True d
    \<and> (d < MAX_RECURSION_DEPTH \<longrightarrow>
        find_show env gen tok False d =
          (case get_show_id_by_name gen tok of
             Inr n \<Rightarrow> Some (shows_getitem gen n)
           | Inl e \<Rightarrow>
               if e = KeyError \<or> e = NoSuchShowError then
                 (case strip_lower tok of
                    Inl e' \<Rightarrow> Some (Inl e')
                  | Inr show' \<Rightarrow>
                      (case custom_url_items (SHOW_CUSTOM_URL env) show' of
                         Some sid' \<Rightarrow> find_show env (PodcastFeedGenerator env) sid' False (d + 1)
                       | None \<Rightarrow> Some (Inl NoSuchShowError)))
               else Some (Inl e)))"
proof
  show "find_show env gen tok False d = find_show env gen tok True d"
    using assms by (rule nonstrict_zero_is_strict)
  show "d < MAX_RECURSION_DEPTH \<longrightarrow>
        find_show env gen tok False d =
          (case get_show_id_by_name gen tok of
             Inr n \<Rightarrow> Some (shows_getitem gen n)
           | Inl e \<Rightarrow>
               if e = KeyError \<or> e = NoSuchShowError then
                 (case strip_lower tok of
                    Inl e' \<Rightarrow> Some (Inl e')
                  | Inr show' \<Rightarrow>
                      (case custom_url_items (SHOW_CUSTOM_URL env) show' of
                         Some sid' \<Rightarrow> find_show env (PodcastFeedGenerator env) sid' False (d + 1)
                       | None \<Rightarrow> Some (Inl NoSuchShowError)))
               else Some (Inl e))"
    using assms by (subst find_show.simps) (simp add: truthy_def)
qed

theorem zero_id_falls_through_witness:
  "py_int (Str ''0'') = Some 0 \<and> show_source_shows zero_gen 0 = Some show_zero
   \<and> find_show zero_env zero_gen (Str ''0'') False 0 = Some (Inl NoSuchShowError)"
  using zero_id_falls_through [OF py_int_zero, of zero_env zero_gen 0]
    py_int_zero zero_in_catalog zero_token_not_found
  by simp

text \<open>
  C3, at the inputs where the code leaves the claim. The token \<open>999\<close> parses as an
  integer that the catalog does not hold: the non-strict call raises \<open>KeyError\<close>, not
  \<open>NoSuchShowError\<close>. The token \<open>0\<close> parses as the id of a show the catalog holds: the
  non-strict call raises \<open>NoSuchShowError\<close> and does not give that show.
\<close>

theorem numeric_token_not_in_catalog:
  "py_int (Str ''999'') = Some 999
   \<and> show_source_shows news_gen 999 = None
   \<and> find_show news_env news_gen (Str ''999'') False 0 = Some (Inl KeyError)
   \<and> py_int (Str ''0'') = Some 0
   \<and> show_source_shows zero_gen 0 = Some show_zero
   \<and> find_show zero_env zero_gen (Str ''0'') False 0 = Some (Inl NoSuchShowError)"
  by (intro conjI; code_simp)

section \<open>Properties of the redirect store\<close>

subsection \<open>The storage constraints are kept\<close>

lemma find_fst_Some:
  "distinct (map fst rows) \<Longrightarrow> (u, c) \<in> set rows \<Longrightarrow> find (\<lambda>r. fst r = u) rows = Some (u, c)"
  by (induction rows) (auto simp: rev_image_eqI)

lemma find_snd_Some:
  "distinct (map snd rows) \<Longrightarrow> (u, c) \<in> set rows \<Longrightarrow> find (\<lambda>r. snd r = c) rows = Some (u, c)"
  by (induction rows) (auto simp: rev_image_eqI)

lemma find_fst_None: "(find (\<lambda>r. fst r = u) rows = None) = (u \<notin> set (map fst rows))"
  by (induction rows) auto

lemma find_fst_mem: "find (\<lambda>r. fst r = u) rows = Some r \<Longrightarrow> r \<in> set rows \<and> fst r = u"
  by (induction rows) (auto split: if_splits)

lemma insert_row_constraints:
  "constraints_hold t \<Longrightarrow> insert_row t row = Inr rows' \<Longrightarrow> constraints_hold (Some rows')"
  by (auto simp: constraints_hold_def insert_row_def split: option.splits if_splits)

lemma init_db_constraints:
  "constraints_hold (sound (init_db db)) = (sound db = None \<or> constraints_hold (sound db))"
  "constraints_hold (article (init_db db)) = (article db = None \<or> constraints_hold (article db))"
  by (auto simp: init_db_def create_table_if_not_exists_def constraints_hold_def split: option.splits)

lemma sound_call_constraints:
  "get_redirect_sound env n db u ep = (db', r) \<Longrightarrow>
   constraints_hold (sound db) \<Longrightarrow> constraints_hold (article db) \<Longrightarrow>
   constraints_hold (sound db') \<and> constraints_hold (article db')"
  by (auto simp: get_redirect_sound_def Let_def insert_row_constraints
      split: sum.splits option.splits)

lemma article_call_constraints:
  "get_redirect_article env uuid k stack db u ep = (db', k', r) \<Longrightarrow>
   constraints_hold (sound db) \<Longrightarrow> constraints_hold (article db) \<Longrightarrow>
   constraints_hold (sound db') \<and> constraints_hold (article db')"
proof (induction stack arbitrary: k)
  case 0
  then show ?case by simp
next
  case (Suc stack)
  from Suc.prems show ?case
    by (auto simp: insert_row_constraints dest: Suc.IH
        split: sum.splits option.splits if_splits)
qed

lemma reachable_constraints:
  "reachable db \<Longrightarrow> constraints_hold (sound db) \<and> constraints_hold (article db)"
proof (induction rule: reachable.induct)
  case new_file
  show ?case by (simp add: init_db_constraints)
next
  case (init_again db)
  then show ?case by (simp add: init_db_constraints)
next
  case (sound_call db env new_uri original_url episode db' r)
  then show ?case using sound_call_constraints by blast
next
  case (article_call db env uuid k stack original_url episode db' k' r)
  then show ?case using article_call_constraints [OF article_call.hyps(2)] by simp
qed

lemma select_proxy_hit:
  "constraints_hold (Some rows) \<Longrightarrow> (u, c) \<in> set rows \<Longrightarrow> select_proxy (Some rows) u = Inr (Some c)"
  by (simp add: select_proxy_def constraints_hold_def find_fst_Some)

lemma select_original_hit:
  "constraints_hold (Some rows) \<Longrightarrow> (u, c) \<in> set rows \<Longrightarrow> select_original (Some rows) c = Inr (Some u)"
  by (simp add: select_original_def constraints_hold_def find_snd_Some)

lemma select_proxy_Some:
  "select_proxy t u = Inr (Some c) \<Longrightarrow> \<exists>rows. t = Some rows \<and> (u, c) \<in> set rows"
  by (auto simp: select_proxy_def split: option.splits dest!: find_fst_mem)

lemma select_proxy_None:
  "select_proxy t u = Inr None \<Longrightarrow> \<exists>rows. t = Some rows \<and> u \<notin> set (map fst rows)"
  by (auto simp: select_proxy_def find_fst_None split: option.splits)

lemma select_proxy_total:
  "constraints_hold t \<Longrightarrow> \<exists>r. select_proxy t u = Inr r"
  by (auto simp: select_proxy_def constraints_hold_def split: option.splits)

text \<open>What a successful sound call leaves behind.\<close>
lemma sound_call_result:
  assumes c: "constraints_hold (sound db)"
    and ok: "code_usable (sound db) u new_uri"
  shows "\<exists>C rows'. get_redirect_sound env new_uri db u ep
            = (db\<lparr>sound := Some rows'\<rparr>, Inr (episode_url env (episode_show ep) C))
          \<and> constraints_hold (Some rows') \<and> (u, C) \<in> set rows'"
proof -
  from c obtain rows where rows: "sound db = Some rows"
    by (auto simp: constraints_hold_def split: option.splits)
  show ?thesis
  proof (cases "find (\<lambda>r. fst r = u) rows")
    case None
    then have nu: "u \<notin> set (map fst rows)" by (simp add: find_fst_None)
    with ok rows have fresh: "new_uri \<notin> set (map snd rows)" by (simp add: code_usable_def)
    have ins: "insert_row (sound db) (u, new_uri) = Inr (rows @ [(u, new_uri)])"
      using nu fresh rows by (simp add: insert_row_def)
    have "constraints_hold (Some (rows @ [(u, new_uri)]))"
      using insert_row_constraints [OF c ins] .
    then show ?thesis
      using None rows ins
      by (intro exI [of _ new_uri] exI [of _ "rows @ [(u, new_uri)]"])
         (simp add: get_redirect_sound_def select_proxy_def)
  next
    case (Some r)
    then obtain C where r: "r = (u, C)" and mem: "(u, C) \<in> set rows"
      using find_fst_mem [OF Some] by (cases r) auto
    have "db\<lparr>sound := Some rows\<rparr> = db" using rows by simp
    then show ?thesis
      using Some r mem rows c
      by (auto simp: get_redirect_sound_def select_proxy_def intro!: exI [of _ C] exI [of _ rows])
  qed
qed

lemma article_hit:
  "select_proxy (article db) u = Inr (Some C) \<Longrightarrow>
   get_redirect_article env uuid k (Suc stack) db u ep
     = (db, k, Inr (article_url env (episode_show ep) C))"
  by simp

lemma article_first_attempt:
  assumes c: "constraints_hold (article db)"
    and ok: "code_usable (article db) u (uuid k)"
  shows "\<exists>C rows' k'. get_redirect_article env uuid k (Suc stack) db u ep
            = (db\<lparr>article := Some rows'\<rparr>, k', Inr (article_url env (episode_show ep) C))
          \<and> constraints_hold (Some rows') \<and> (u, C) \<in> set rows'"
proof -
  from c obtain rows where rows: "article db = Some rows"
    by (auto simp: constraints_hold_def split: option.splits)
  have same: "db\<lparr>article := Some rows\<rparr> = db" using rows by simp
  show ?thesis
  proof (cases "find (\<lambda>r. fst r = u) rows")
    case None
    then have nu: "u \<notin> set (map fst rows)" by (simp add: find_fst_None)
    with ok rows have fresh: "uuid k \<notin> set (map snd rows)" by (simp add: code_usable_def)
    have ins: "insert_row (article db) (u, uuid k) = Inr (rows @ [(u, uuid k)])"
      using nu fresh rows by (simp add: insert_row_def)
    have c': "constraints_hold (Some (rows @ [(u, uuid k)]))"
      using insert_row_constraints [OF c ins] .
    have "get_redirect_article env uuid k (Suc stack) db u ep
            = (db\<lparr>article := Some (rows @ [(u, uuid k)])\<rparr>, Suc k,
               Inr (article_url env (episode_show ep) (uuid k)))"
      using None rows ins by (simp add: select_proxy_def)
    with c' show ?thesis
      by (intro exI [of _ "uuid k"] exI [of _ "rows @ [(u, uuid k)]"] exI [of _ "Suc k"]) simp
  next
    case (Some r)
    then obtain C where mem: "(u, C) \<in> set rows"
      using find_fst_mem [OF Some] by (cases r) auto
    have "select_proxy (article db) u = Inr (Some C)"
      using select_proxy_hit [of rows u C] c mem rows by simp
    from article_hit [OF this, of env uuid k stack ep] same mem c rows show ?thesis
      by (intro exI [of _ C] exI [of _ rows] exI [of _ k]) simp
  qed
qed

text \<open>
  The article call returns a URL when one of the codes of its first \<open>stack\<close> attempts is
  usable.
\<close>

lemma article_call_result:
  assumes c: "constraints_hold (article db)"
    and ok: "code_usable (article db) u (uuid (k + j))"
    and room: "j < stack"
  shows "\<exists>C rows' k'. get_redirect_article env uuid k stack db u ep
            = (db\<lparr>article := Some rows'\<rparr>, k', Inr (article_url env (episode_show ep) C))
          \<and> constraints_hold (Some rows') \<and> (u, C) \<in> set rows'"
  using ok room
proof (induction j arbitrary: k stack)
  case 0
  then obtain n where "stack = Suc n" by (cases stack) auto
  with 0 show ?case using article_first_attempt [OF c] by simp
next
  case (Suc j)
  from Suc.prems(2) obtain n where n: "stack = Suc n" and jn: "j < n" by (cases stack) auto
  from c obtain rows where rows: "article db = Some rows"
    by (auto simp: constraints_hold_def split: option.splits)
  show ?case
  proof (cases "code_usable (article db) u (uuid k)")
    case True
    then show ?thesis unfolding n by (rule article_first_attempt [OF c])
  next
    case False
    then have nu: "u \<notin> set (map fst rows)" and used: "uuid k \<in> set (map snd rows)"
      using rows by (auto simp: code_usable_def)
    have sel: "select_proxy (article db) u = Inr None"
      using nu rows by (simp add: select_proxy_def find_fst_None)
    have ins: "insert_row (article db) (u, uuid k) = Inl IntegrityError"
      using used rows by (simp add: insert_row_def)
    have step: "get_redirect_article env uuid k stack db u ep
                  = get_redirect_article env uuid (Suc k) n db u ep"
      using sel ins n by simp
    from Suc.prems have "code_usable (article db) u (uuid (Suc k + j))" by simp
    from Suc.IH [OF this jn] step show ?thesis by simp
  qed
qed

text \<open>
  When every code the generator gives is taken, the retries use up the stack and the call
  raises \<open>RecursionError\<close>; the database is as before.
\<close>

lemma article_retries_exhausted:
  assumes sel: "select_proxy (article db) u = Inr None"
    and used: "\<forall>k. insert_row (article db) (u, uuid k) = Inl IntegrityError"
  shows "get_redirect_article env uuid k stack db u ep = (db, k + stack, Inl RecursionError)"
  using sel used by (induction stack arbitrary: k) simp_all

lemma same_code_same_original:
  "distinct (map snd rows) \<Longrightarrow> (a, c) \<in> set rows \<Longrightarrow> (b, c) \<in> set rows \<Longrightarrow> a = b"
proof -
  assume "distinct (map snd rows)" and a: "(a, c) \<in> set rows" and b: "(b, c) \<in> set rows"
  then have "inj_on snd (set rows)" by (simp add: distinct_map)
  from inj_onD [OF this _ a b] show "a = b" by simp
qed

lemma select_proxy_injective:
  assumes c: "constraints_hold t"
    and s1: "select_proxy t o1 = Inr (Some c1)" and s2: "select_proxy t o2 = Inr (Some c2)"
    and ne: "o1 \<noteq> o2"
  shows "c1 \<noteq> c2"
proof
  assume eq: "c1 = c2"
  from select_proxy_Some [OF s1] select_proxy_Some [OF s2] obtain rows where
    t: "t = Some rows" and m1: "(o1, c1) \<in> set rows" and m2: "(o2, c2) \<in> set rows"
    by auto
  from c t have "distinct (map snd rows)" by (simp add: constraints_hold_def)
  from same_code_same_original [OF this m1 m2 [folded eq]] ne show False by simp
qed

text \<open>What any successful sound call leaves behind.\<close>
lemma sound_call_stores:
  assumes call: "get_redirect_sound env n db u ep = (db', Inr url)"
    and c: "constraints_hold (sound db)"
  shows "\<exists>code rows rows'. url = episode_url env (episode_show ep) code
           \<and> sound db = Some rows \<and> sound db' = Some rows' \<and> set rows \<subseteq> set rows'
           \<and> (u, code) \<in> set rows' \<and> constraints_hold (Some rows')"
proof -
  from c obtain rows where rows: "sound db = Some rows"
    by (auto simp: constraints_hold_def split: option.splits)
  show ?thesis
  proof (cases "select_proxy (sound db) u")
    case (Inl e)
    with call show ?thesis by (simp add: get_redirect_sound_def)
  next
    case (Inr found)
    show ?thesis
    proof (cases found)
      case (Some code)
      with Inr call have "db' = db" "url = episode_url env (episode_show ep) code"
        by (auto simp: get_redirect_sound_def)
      moreover from select_proxy_Some Inr Some rows have "(u, code) \<in> set rows" by fastforce
      ultimately show ?thesis using rows c
        by (intro exI [of _ code] exI [of _ rows]) simp
    next
      case None
      with Inr call obtain rows' where
        ins: "insert_row (sound db) (u, n) = Inr rows'" and
        db': "db' = db\<lparr>sound := Some rows'\<rparr>" and url: "url = episode_url env (episode_show ep) n"
        by (auto simp: get_redirect_sound_def split: sum.splits)
      from ins rows have r': "rows' = rows @ [(u, n)]"
        by (auto simp: insert_row_def split: if_splits)
      from insert_row_constraints [OF c ins] r' db' url rows show ?thesis
        by (intro exI [of _ n] exI [of _ rows] exI [of _ rows']) auto
    qed
  qed
qed

lemma sound_two_calls:
  assumes c: "constraints_hold (sound db)"
    and ne: "o1 \<noteq> o2"
    and call1: "get_redirect_sound env n1 db o1 e1 = (db1, Inr url1)"
    and call2: "get_redirect_sound env n2 db1 o2 e2 = (db2, Inr url2)"
  shows "\<exists>c1 c2. url1 = episode_url env (episode_show e1) c1
          \<and> url2 = episode_url env (episode_show e2) c2
          \<and> select_proxy (sound db2) o1 = Inr (Some c1)
          \<and> select_proxy (sound db2) o2 = Inr (Some c2) \<and> c1 \<noteq> c2"
proof -
  from sound_call_stores [OF call1 c] obtain c1 rows1 where
    u1: "url1 = episode_url env (episode_show e1) c1" and s1: "sound db1 = Some rows1"
    and m1: "(o1, c1) \<in> set rows1" and k1: "constraints_hold (Some rows1)"
    by blast
  from k1 s1 have k1': "constraints_hold (sound db1)" by simp
  from sound_call_stores [OF call2 k1'] s1 obtain c2 rows2 where
    u2: "url2 = episode_url env (episode_show e2) c2" and s2: "sound db2 = Some rows2"
    and sub: "set rows1 \<subseteq> set rows2"
    and m2: "(o2, c2) \<in> set rows2" and k2: "constraints_hold (Some rows2)"
    by auto
  from sub m1 have m1': "(o1, c1) \<in> set rows2" by blast
  have p1: "select_proxy (sound db2) o1 = Inr (Some c1)"
    using select_proxy_hit [OF k2 m1'] s2 by simp
  have p2: "select_proxy (sound db2) o2 = Inr (Some c2)"
    using select_proxy_hit [OF k2 m2] s2 by simp
  from k2 s2 have "constraints_hold (sound db2)" by simp
  from select_proxy_injective [OF this p1 p2 ne] u1 u2 p1 p2 show ?thesis by blast
qed

text \<open>What any successful article call leaves behind.\<close>

lemma article_call_stores:
  assumes call: "get_redirect_article env uuid k stack db u ep = (db', k', Inr url)"
    and c: "constraints_hold (article db)"
  shows "\<exists>code rows rows'. url = article_url env (episode_show ep) code
           \<and> article db = Some rows \<and> article db' = Some rows' \<and> set rows \<subseteq> set rows'
           \<and> (u, code) \<in> set rows' \<and> constraints_hold (Some rows')"
  using call
proof (induction stack arbitrary: k)
  case 0
  then show ?case by simp
next
  case (Suc stack)
  from c obtain rows where rows: "article db = Some rows"
    by (auto simp: constraints_hold_def split: option.splits)
  show ?case
  proof (cases "select_proxy (article db) u")
    case (Inl e)
    with Suc.prems show ?thesis by simp
  next
    case (Inr found)
    show ?thesis
    proof (cases found)
      case (Some code)
      with Inr Suc.prems have y: "db' = db" "url = article_url env (episode_show ep) code"
        by auto
      from select_proxy_Some Inr Some rows have "(u, code) \<in> set rows" by fastforce
      with y rows c show ?thesis
        by (intro exI [of _ code] exI [of _ rows]) auto
    next
      case None
      show ?thesis
      proof (cases "insert_row (article db) (u, uuid k)")
        case (Inl e)
        show ?thesis
        proof (cases "e = IntegrityError")
          case True
          with Inl Inr None Suc.prems
          have "get_redirect_article env uuid (Suc k) stack db u ep = (db', k', Inr url)"
            by simp
          then show ?thesis by (rule Suc.IH)
        next
          case False
          with Inl Inr None Suc.prems show ?thesis by auto
        qed
      next
        case (Inr rows')
        with \<open>select_proxy (article db) u = Inr found\<close> None Suc.prems
        have y: "db' = db\<lparr>article := Some rows'\<rparr>"
          "url = article_url env (episode_show ep) (uuid k)"
          by auto
        from Inr rows have r': "rows' = rows @ [(u, uuid k)]"
          by (auto simp: insert_row_def split: if_splits)
        from insert_row_constraints [OF c Inr] r' y rows show ?thesis
          by (intro exI [of _ "uuid k"] exI [of _ rows] exI [of _ rows']) auto
      qed
    qed
  qed
qed

lemma reachable_empty: "reachable empty_db"
  unfolding empty_db_def by (rule reachable.new_file)

text \<open>
  The round trip of the store, for a call whose generated code is usable. In a reachable
  database such a call of \<open>get_redirect_sound\<close> for \<open>u\<close> returns the URL built from a code
  \<open>C\<close>; every later call for \<open>u\<close> returns the URL built from the same \<open>C\<close> and leaves the
  database as it is; and \<open>get_original_sound\<close> of \<open>C\<close> returns \<open>u\<close>. The same holds for
  \<open>get_redirect_article\<close> when one of the codes of its first \<open>stack\<close> attempts is usable.
\<close>

lemma round_trip_when_code_usable:
  assumes r: "reachable db"
  shows "(code_usable (sound db) u new_uri \<longrightarrow>
           (\<exists>C db'. get_redirect_sound env new_uri db u ep
                       = (db', Inr (episode_url env (episode_show ep) C))
              \<and> (\<forall>new_uri' ep'. get_redirect_sound env new_uri' db' u ep'
                       = (db', Inr (episode_url env (episode_show ep') C)))
              \<and> (\<forall>s. get_original_sound db' s C = Inr u)))
       \<and> (code_usable (article db) u (uuid (k + j)) \<and> j < stack \<longrightarrow>
           (\<exists>C db' k'. get_redirect_article env uuid k stack db u ep
                       = (db', k', Inr (article_url env (episode_show ep) C))
              \<and> (\<forall>uuid' k'' stack' ep'. get_redirect_article env uuid' k'' (Suc stack') db' u ep'
                       = (db', k'', Inr (article_url env (episode_show ep') C)))
              \<and> (\<forall>s. get_original_article db' s C = Inr u)))"
proof (intro conjI impI)
  assume ok: "code_usable (sound db) u new_uri"
  from reachable_constraints [OF r] have c: "constraints_hold (sound db)" by simp
  from sound_call_result [OF c ok, of env ep] obtain C rows' where
    call: "get_redirect_sound env new_uri db u ep
            = (db\<lparr>sound := Some rows'\<rparr>, Inr (episode_url env (episode_show ep) C))"
    and c': "constraints_hold (Some rows')" and mem: "(u, C) \<in> set rows'"
    by blast
  let ?db' = "db\<lparr>sound := Some rows'\<rparr>"
  have sel: "select_proxy (sound ?db') u = Inr (Some C)"
    using select_proxy_hit [OF c' mem] by simp
  have again: "get_redirect_sound env new_uri' ?db' u ep'
                = (?db', Inr (episode_url env (episode_show ep') C))" for new_uri' ep'
    using sel by (simp add: get_redirect_sound_def)
  have orig: "get_original_sound ?db' s C = Inr u" for s
    using select_original_hit [OF c' mem] by (simp add: get_original_sound_def)
  from call again orig
  show "\<exists>C db'. get_redirect_sound env new_uri db u ep
                       = (db', Inr (episode_url env (episode_show ep) C))
              \<and> (\<forall>new_uri' ep'. get_redirect_sound env new_uri' db' u ep'
                       = (db', Inr (episode_url env (episode_show ep') C)))
              \<and> (\<forall>s. get_original_sound db' s C = Inr u)"
    by blast
next
  assume "code_usable (article db) u (uuid (k + j)) \<and> j < stack"
  then have ok: "code_usable (article db) u (uuid (k + j))" and room: "j < stack" by simp_all
  from reachable_constraints [OF r] have c: "constraints_hold (article db)" by simp
  from article_call_result [where uuid = uuid and k = k and j = j, OF c ok room, of env ep]
  obtain C rows' k' where
    call: "get_redirect_article env uuid k stack db u ep
            = (db\<lparr>article := Some rows'\<rparr>, k', Inr (article_url env (episode_show ep) C))"
    and c': "constraints_hold (Some rows')" and mem: "(u, C) \<in> set rows'"
    by blast
  let ?db' = "db\<lparr>article := Some rows'\<rparr>"
  have sel: "select_proxy (article ?db') u = Inr (Some C)"
    using select_proxy_hit [OF c' mem] by simp
  have again: "get_redirect_article env uuid' k'' (Suc stack') ?db' u ep'
                = (?db', k'', Inr (article_url env (episode_show ep') C))" for uuid' k'' stack' ep'
    using article_hit [OF sel] .
  have orig: "get_original_article ?db' s C = Inr u" for s
    using select_original_hit [OF c' mem] by (simp add: get_original_article_def)
  from call again orig
  show "\<exists>C db' k'. get_redirect_article env uuid k stack db u ep
                       = (db', k', Inr (article_url env (episode_show ep) C))
              \<and> (\<forall>uuid' k'' stack' ep'. get_redirect_article env uuid' k'' (Suc stack') db' u ep'
                       = (db', k'', Inr (article_url env (episode_show ep') C)))
              \<and> (\<forall>s. get_original_article db' s C = Inr u)"
    by blast
qed

text \<open>
  C10. The original URL recovered for a proxy code does not depend on the show argument:
  for every database, code and two shows, \<open>get_original_sound\<close> gives the same result
  (the same original URL, or the same failure) for both shows, and so does
  \<open>get_original_article\<close>.
\<close>

theorem original_independent_of_show:
  "get_original_sound db s1 c = get_original_sound db s2 c
   \<and> get_original_article db s1 c = get_original_article db s2 c"
  by (simp add: get_original_sound_def get_original_article_def)

lemma article_two_calls:
  assumes c: "constraints_hold (article db)"
    and ne: "o1 \<noteq> o2"
    and call1: "get_redirect_article env uuid1 k1 s1 db o1 e1 = (db1, k1', Inr url1)"
    and call2: "get_redirect_article env uuid2 k2 s2 db1 o2 e2 = (db2, k2', Inr url2)"
  shows "\<exists>c1 c2. url1 = article_url env (episode_show e1) c1
          \<and> url2 = article_url env (episode_show e2) c2
          \<and> select_proxy (article db2) o1 = Inr (Some c1)
          \<and> select_proxy (article db2) o2 = Inr (Some c2) \<and> c1 \<noteq> c2"
proof -
  from article_call_stores [OF call1 c] obtain c1 rows1 where
    u1: "url1 = article_url env (episode_show e1) c1" and t1: "article db1 = Some rows1"
    and m1: "(o1, c1) \<in> set rows1" and k1: "constraints_hold (Some rows1)"
    by blast
  from k1 t1 have k1': "constraints_hold (article db1)" by simp
  from article_call_stores [OF call2 k1'] t1 obtain c2 rows2 where
    u2: "url2 = article_url env (episode_show e2) c2" and t2: "article db2 = Some rows2"
    and sub: "set rows1 \<subseteq> set rows2"
    and m2: "(o2, c2) \<in> set rows2" and k2: "constraints_hold (Some rows2)"
    by auto
  from sub m1 have m1': "(o1, c1) \<in> set rows2" by blast
  have p1: "select_proxy (article db2) o1 = Inr (Some c1)"
    using select_proxy_hit [OF k2 m1'] t2 by simp
  have p2: "select_proxy (article db2) o2 = Inr (Some c2)"
    using select_proxy_hit [OF k2 m2] t2 by simp
  from k2 t2 have "constraints_hold (article db2)" by simp
  from select_proxy_injective [OF this p1 p2 ne] u1 u2 p1 p2 show ?thesis by blast
qed

lemma sound_call_1:
  "get_redirect_sound news_env ''c1'' empty_db ''http://x/1.mp3'' news_episode
     = (one_sound_row, Inr ''http://pod.example/episode/dailynews/c1'')"
  by code_simp

lemma sound_call_3:
  "get_redirect_sound news_env ''c3'' one_sound_row ''http://x/3.mp3'' news_episode
     = (two_sound_rows, Inr ''http://pod.example/episode/dailynews/c3'')"
  by code_simp

lemma article_call_1:
  "get_redirect_article news_env abc_then_xyz 0 1000 two_sound_rows ''http://x/1.html''
       news_episode
     = (two_sound_rows\<lparr>article := Some [(''http://x/1.html'', ''abc'')]\<rparr>, 1,
        Inr ''http://pod.example/artikkel/dailynews/abc'')"
  by code_simp

lemma article_call_3:
  "get_redirect_article news_env abc_then_xyz 1 1000
       (two_sound_rows\<lparr>article := Some [(''http://x/1.html'', ''abc'')]\<rparr>)
       ''http://x/3.html'' news_episode
     = (two_rows_db, 2, Inr ''http://pod.example/artikkel/dailynews/xyz'')"
  by code_simp

lemma reachable_two_sound_rows: "reachable two_sound_rows"
  using reachable.sound_call [OF reachable.sound_call [OF reachable_empty sound_call_1] sound_call_3] .

lemma reachable_two_rows: "reachable two_rows_db"
  using reachable.article_call
    [OF reachable.article_call [OF reachable_two_sound_rows article_call_1] article_call_3] .

lemma two_rows_selects:
  "select_proxy (sound two_rows_db) ''http://x/1.mp3'' = Inr (Some ''c1'')"
  "select_proxy (sound two_rows_db) ''http://x/3.mp3'' = Inr (Some ''c3'')"
  "select_proxy (article two_rows_db) ''http://x/1.html'' = Inr (Some ''abc'')"
  "select_proxy (article two_rows_db) ''http://x/3.html'' = Inr (Some ''xyz'')"
  by code_simp+

lemma urls_differ: "''http://x/1.mp3'' \<noteq> ''http://x/3.mp3''" "''http://x/1.html'' \<noteq> ''http://x/3.html''"
  by simp_all

text \<open>
  C7. In every reachable state of the database, each redirect table satisfies its
  storage constraints: no two rows share an original and no two rows share a proxy code.
  Hence the codes stored for two distinct originals differ, and two successive calls for
  distinct originals, of \<open>get_redirect_sound\<close> or of \<open>get_redirect_article\<close>, return URLs
  built from the two stored codes, which differ.
\<close>

theorem store_uniqueness:
  assumes r: "reachable db"
  shows "constraints_hold (sound db) \<and> constraints_hold (article db)
    \<and> (o1 \<noteq> o2 \<and> select_proxy (sound db) o1 = Inr (Some c1)
          \<and> select_proxy (sound db) o2 = Inr (Some c2) \<longrightarrow> c1 \<noteq> c2)
    \<and> (o1 \<noteq> o2 \<and> select_proxy (article db) o1 = Inr (Some c1)
          \<and> select_proxy (article db) o2 = Inr (Some c2) \<longrightarrow> c1 \<noteq> c2)
    \<and> (o1 \<noteq> o2 \<and> get_redirect_sound env n1 db o1 e1 = (db1, Inr url1)
          \<and> get_redirect_sound env n2 db1 o2 e2 = (db2, Inr url2) \<longrightarrow>
        (\<exists>d1 d2. url1 = episode_url env (episode_show e1) d1
          \<and> url2 = episode_url env (episode_show e2) d2
          \<and> select_proxy (sound db2) o1 = Inr (Some d1)
          \<and> select_proxy (sound db2) o2 = Inr (Some d2) \<and> d1 \<noteq> d2))
    \<and> (o1 \<noteq> o2 \<and> get_redirect_article env uuid1 k1 s1 db o1 e1 = (da1, k1', Inr aurl1)
          \<and> get_redirect_article env uuid2 k2 s2 da1 o2 e2 = (da2, k2', Inr aurl2) \<longrightarrow>
        (\<exists>d1 d2. aurl1 = article_url env (episode_show e1) d1
          \<and> aurl2 = article_url env (episode_show e2) d2
          \<and> select_proxy (article da2) o1 = Inr (Some d1)
          \<and> select_proxy (article da2) o2 = Inr (Some d2) \<and> d1 \<noteq> d2))"
proof -
  from reachable_constraints [OF r]
  have cs: "constraints_hold (sound db)" and ca: "constraints_hold (article db)" by simp_all
  show ?thesis
    using cs ca select_proxy_injective [OF cs, of o1 c1 o2 c2]
      select_proxy_injective [OF ca, of o1 c1 o2 c2]
      sound_two_calls [OF cs, of o1 o2 env n1 e1 db1 url1 n2 e2 db2 url2]
      article_two_calls [OF ca, of o1 o2 env uuid1 k1 s1 e1 da1 k1' aurl1 uuid2 k2 s2 e2 da2 k2' aurl2]
    by blast
qed

theorem store_uniqueness_witness:
  "reachable two_rows_db \<and> reachable empty_db \<and> reachable two_sound_rows
   \<and> constraints_hold (sound two_rows_db) \<and> constraints_hold (article two_rows_db)
   \<and> select_proxy (sound two_rows_db) ''http://x/1.mp3'' = Inr (Some ''c1'')
   \<and> select_proxy (sound two_rows_db) ''http://x/3.mp3'' = Inr (Some ''c3'')
   \<and> ''c1'' \<noteq> ''c3''
   \<and> select_proxy (article two_rows_db) ''http://x/1.html'' = Inr (Some ''abc'')
   \<and> select_proxy (article two_rows_db) ''http://x/3.html'' = Inr (Some ''xyz'')
   \<and> ''abc'' \<noteq> ''xyz''
   \<and> (\<exists>d1 d2. ''http://pod.example/episode/dailynews/c1''
                  = episode_url news_env (episode_show news_episode) d1
          \<and> ''http://pod.example/episode/dailynews/c3''
                  = episode_url news_env (episode_show news_episode) d2
          \<and> select_proxy (sound two_sound_rows) ''http://x/1.mp3'' = Inr (Some d1)
          \<and> select_proxy (sound two_sound_rows) ''http://x/3.mp3'' = Inr (Some d2) \<and> d1 \<noteq> d2)
   \<and> (\<exists>d1 d2. ''http://pod.example/artikkel/dailynews/abc''
                  = article_url news_env (episode_show news_episode) d1
          \<and> ''http://pod.example/artikkel/dailynews/xyz''
                  = article_url news_env (episode_show news_episode) d2
          \<and> select_proxy (article two_rows_db) ''http://x/1.html'' = Inr (Some d1)
          \<and> select_proxy (article two_rows_db) ''http://x/3.html'' = Inr (Some d2) \<and> d1 \<noteq> d2)"
proof -
  note a = store_uniqueness [OF reachable_two_rows,
      where ?o1.0 = "''http://x/1.mp3''" and ?o2.0 = "''http://x/3.mp3''"
        and ?c1.0 = "''c1''" and ?c2.0 = "''c3''"]
  note b = store_uniqueness [OF reachable_two_rows,
      where ?o1.0 = "''http://x/1.html''" and ?o2.0 = "''http://x/3.html''"
        and ?c1.0 = "''abc''" and ?c2.0 = "''xyz''"]
  note c = store_uniqueness [OF reachable_empty,
      where ?o1.0 = "''http://x/1.mp3''" and ?o2.0 = "''http://x/3.mp3''"
        and env = news_env and ?n1.0 = "''c1''" and ?n2.0 = "''c3''"
        and ?e1.0 = news_episode and ?e2.0 = news_episode
        and ?db1.0 = one_sound_row and ?db2.0 = two_sound_rows
        and ?url1.0 = "''http://pod.example/episode/dailynews/c1''"
        and ?url2.0 = "''http://pod.example/episode/dailynews/c3''"]
  note d = store_uniqueness [OF reachable_two_sound_rows,
      where ?o1.0 = "''http://x/1.html''" and ?o2.0 = "''http://x/3.html''"
        and env = news_env and ?uuid1.0 = abc_then_xyz and ?uuid2.0 = abc_then_xyz
        and ?k1.0 = 0 and ?k2.0 = 1 and ?k1'.0 = 1 and ?k2'.0 = 2
        and ?s1.0 = 1000 and ?s2.0 = 1000
        and ?e1.0 = news_episode and ?e2.0 = news_episode
        and ?da1.0 = "two_sound_rows\<lparr>article := Some [(''http://x/1.html'', ''abc'')]\<rparr>"
        and ?da2.0 = two_rows_db
        and ?aurl1.0 = "''http://pod.example/artikkel/dailynews/abc''"
        and ?aurl2.0 = "''http://pod.example/artikkel/dailynews/xyz''"]
  from a two_rows_selects urls_differ have 1: "''c1'' \<noteq> ''c3''" by blast
  from b two_rows_selects urls_differ have 2: "''abc'' \<noteq> ''xyz''" by blast
  from c sound_call_1 sound_call_3 urls_differ
  have 3: "\<exists>d1 d2. ''http://pod.example/episode/dailynews/c1''
                  = episode_url news_env (episode_show news_episode) d1
          \<and> ''http://pod.example/episode/dailynews/c3''
                  = episode_url news_env (episode_show news_episode) d2
          \<and> select_proxy (sound two_sound_rows) ''http://x/1.mp3'' = Inr (Some d1)
          \<and> select_proxy (sound two_sound_rows) ''http://x/3.mp3'' = Inr (Some d2) \<and> d1 \<noteq> d2"
    by blast
  from d article_call_1 article_call_3 urls_differ
  have 4: "\<exists>d1 d2. ''http://pod.example/artikkel/dailynews/abc''
                  = article_url news_env (episode_show news_episode) d1
          \<and> ''http://pod.example/artikkel/dailynews/xyz''
                  = article_url news_env (episode_show news_episode) d2
          \<and> select_proxy (article two_rows_db) ''http://x/1.html'' = Inr (Some d1)
          \<and> select_proxy (article two_rows_db) ''http://x/3.html'' = Inr (Some d2) \<and> d1 \<noteq> d2"
    by blast
  have 5: "constraints_hold (sound two_rows_db)" "constraints_hold (article two_rows_db)"
    by (rule a [THEN conjunct1], rule a [THEN conjunct2, THEN conjunct1])
  show ?thesis
    using 1 2 3 4 5 reachable_two_rows reachable_empty reachable_two_sound_rows two_rows_selects
    by blast
qed

subsection \<open>Conflicts on insert\<close>

text \<open>
  C1, at an input where the code leaves the claim. The sound table holds a row with the
  code \<open>abc\<close>, the original \<open>http://x/1.mp3\<close> has no row, and the generator gives \<open>abc\<close>:
  the \<open>INSERT\<close> of \<open>get_redirect_sound\<close> violates the unique constraint and the call
  raises \<open>IntegrityError\<close>; nothing is retried. \<open>get_redirect_article\<close> in the same
  situation, with room for 1000 activations, tries again and returns the URL built from
  the next code.
\<close>

theorem sound_conflict_not_retried:
  "select_proxy (sound one_row_db) ''http://x/1.mp3'' = Inr None
   \<and> get_redirect_sound news_env ''abc'' one_row_db ''http://x/1.mp3'' news_episode
       = (one_row_db, Inl IntegrityError)
   \<and> select_proxy (article one_row_db) ''http://x/1.html'' = Inr None
   \<and> get_redirect_article news_env abc_then_xyz 0 1000 one_row_db ''http://x/1.html''
         news_episode
       = (one_row_db\<lparr>article := Some [(''http://x/2.html'', ''abc''),
                                         (''http://x/1.html'', ''xyz'')]\<rparr>,
          2, Inr ''http://pod.example/artikkel/dailynews/xyz'')"
  by (intro conjI; code_simp)

text \<open>Two statements of a call, run without interruption, are \<open>get_redirect_sound\<close>.\<close>

lemma sound_statements_are_call:
  "sound_statement env new_uri u ep (sound_statement env new_uri u ep (db, At_select))
     = (case get_redirect_sound env new_uri db u ep of (db', r) \<Rightarrow> (db', Finished r))"
  by (simp add: sound_statement_def get_redirect_sound_def Let_def
      split: sum.splits option.splits)

lemma no_race_same_code:
  "run_sound_calls news_env ''http://x/1.mp3'' news_episode [0, 0, 1, 1]
     (empty_db, [(''c1'', At_select), (''c2'', At_select)])
   = (one_sound_row,
      [(''c1'', Finished (Inr ''http://pod.example/episode/dailynews/c1'')),
       (''c2'', Finished (Inr ''http://pod.example/episode/dailynews/c1''))])"
  by code_simp

text \<open>
  C5, at an input where the code leaves the claim. Two calls of \<open>get_redirect_sound\<close>
  for the same original start on the empty table; both run their \<open>SELECT\<close> before either
  runs its \<open>INSERT\<close>. One row is stored, the first call returns its URL, and the second
  call raises \<open>IntegrityError\<close> instead of returning the same code.
\<close>

theorem lost_race_raises:
  "run_sound_calls news_env ''http://x/1.mp3'' news_episode [0, 1, 0, 1]
     (empty_db, [(''c1'', At_select), (''c2'', At_select)])
   = (one_sound_row,
      [(''c1'', Finished (Inr ''http://pod.example/episode/dailynews/c1'')),
       (''c2'', Finished (Inl IntegrityError))])"
  by code_simp

text \<open>
  C6, at an input where the code leaves the claim. On the new database a call of
  \<open>get_redirect_sound\<close> for \<open>http://x/1.mp3\<close> stores the code \<open>c1\<close>. The next call is for
  the original \<open>http://x/3.mp3\<close>, which has no row, and the generator gives \<open>c1\<close> again:
  the call raises \<open>IntegrityError\<close> and returns no code, so there is nothing to
  round-trip. \<open>get_redirect_article\<close> in the same situation returns the URL of the code
  \<open>xyz\<close>, returns it again on the next call, and \<open>get_original_article\<close> of \<open>xyz\<close> gives
  the original.
\<close>

theorem round_trip_fails_on_collision:
  "get_redirect_sound news_env ''c1'' empty_db ''http://x/1.mp3'' news_episode
     = (one_sound_row, Inr ''http://pod.example/episode/dailynews/c1'')
   \<and> select_proxy (sound one_sound_row) ''http://x/3.mp3'' = Inr None
   \<and> get_redirect_sound news_env ''c1'' one_sound_row ''http://x/3.mp3'' news_episode
       = (one_sound_row, Inl IntegrityError)
   \<and> get_redirect_article news_env abc_then_xyz 0 1000
         (two_sound_rows\<lparr>article := Some [(''http://x/1.html'', ''abc'')]\<rparr>)
         ''http://x/3.html'' news_episode
       = (two_rows_db, 2, Inr ''http://pod.example/artikkel/dailynews/xyz'')
   \<and> get_redirect_article news_env abc_then_xyz 2 1000 two_rows_db ''http://x/3.html''
         news_episode
       = (two_rows_db, 2, Inr ''http://pod.example/artikkel/dailynews/xyz'')
   \<and> get_original_article two_rows_db daily_news ''xyz'' = Inr ''http://x/3.html''"
  by (intro conjI; code_simp)

section \<open>Properties of the HTTP surface\<close>











lemma stale_alias_raises:
  "find_show stale_alias_env (PodcastFeedGenerator stale_alias_env) (Str ''old'') True 0
     = Some (Inl KeyError)"
  by code_simp

lemma known_show_and_code_redirects:
  "snd (full_dispatch_request news_env False one_row_db plain_request
          (Redirect_episode ''Daily News'' ''abc''))
     = Some (Inr (Redirect ''http://x/2.mp3'' 302))"
  by code_simp




end
